theory Spec2Isabelle
  imports Main "HOL-Library.AList" "HOL-Library.Multiset"
begin

section \<open>Data model of \<open>raiden/channel.py\<close>\<close>

text \<open>
  Python 2 byte strings (addresses, secrets, digests, Merkle roots) are \<open>string\<close>s; the
  empty string is the only falsy one. Python integers are unbounded, hence \<open>int\<close>.
\<close>

type_synonym bytes = string

text \<open>
  \<open>sha3\<close> (\<open>raiden.utils\<close>), \<open>Lock.as_bytes\<close> (\<open>raiden.messages\<close>) and
  \<open>merkleroot\<close> (\<open>raiden.mtree\<close>) are imported by \<open>channel.py\<close> from modules that are
  not part of the sources at hand. Every operation below takes them as a parameter.
\<close>

record Lock =
  amount :: int
  expiration :: int
  hashlock :: bytes

record prims =
  sha3 :: "bytes \<Rightarrow> bytes"
  as_bytes :: "Lock \<Rightarrow> bytes"
  merkleroot :: "bytes list \<Rightarrow> bytes"

text \<open>\<open>sha3(lock.as_bytes)\<close>, the entry a lock contributes to the hash sequence.\<close>

definition lock_hash :: "prims \<Rightarrow> Lock \<Rightarrow> bytes" where
  "lock_hash P l = sha3 P (as_bytes P l)"

text \<open>
  The fields every transfer message shares. \<open>m_sender\<close> is what \<open>transfer.sender\<close>
  reads: the address recovered from the signature, empty while the message is unsigned.
\<close>

record header =
  m_nonce :: int
  m_asset :: bytes
  m_transfered_amount :: int
  m_recipient :: bytes
  m_locksroot :: bytes
  m_sender :: bytes

text \<open>
  \<open>MediatedTransfer\<close> and \<open>RefundTransfer\<close> are subclasses of \<open>LockedTransfer\<close> whose
  extra routing fields the channel never reads, so \<open>isinstance(t, LockedTransfer)\<close> is the
  second constructor.
\<close>

datatype transfer =
    DirectTransfer header "bytes option"
  | LockedTransfer header Lock

fun hdr :: "transfer \<Rightarrow> header" where
  "hdr (DirectTransfer h s) = h"
| "hdr (LockedTransfer h l) = h"

text \<open>
  The exceptions of the module. The five subclasses of \<open>BaseError\<close> are declared in
  \<open>channel.py\<close>; their constructor argument (the offending transfer or hashlock) is not
  kept. Every other \<open>raise\<close> of the operations below is a built-in \<open>ValueError\<close>
  that carries only a message; \<open>AssertionError\<close>, \<open>KeyError\<close> and \<open>AttributeError\<close> are
  what \<open>assert\<close>, a missing dictionary key and a missing attribute raise.
\<close>

datatype error =
    InvalidNonce
  | InvalidSecret
  | InvalidLocksRoot
  | InvalidLockTime
  | InsufficientBalance
  | ValueError string
  | AssertionError
  | KeyError
  | AttributeError string

section \<open>\<open>LockedTransfers\<close>\<close>

text \<open>
  \<open>locked_map\<close> is the dictionary \<open>self.locked\<close> from hashlock to the locked transfer (an
  association list with distinct keys), \<open>cached_lock_hashes\<close> the list
  \<open>self._cached_lock_hashes\<close> and \<open>cached_root\<close> the memo \<open>self._cached_root\<close>.
\<close>

record LockedTransfers =
  locked_map :: "(bytes \<times> (header \<times> Lock)) list"
  cached_lock_hashes :: "bytes list"
  cached_root :: "bytes option"

definition LockedTransfers_init :: LockedTransfers where
  "LockedTransfers_init = \<lparr>locked_map = [], cached_lock_hashes = [], cached_root = None\<rparr>"

definition contains :: "LockedTransfers \<Rightarrow> bytes \<Rightarrow> bool" where
  "contains S h = (map_of (locked_map S) h \<noteq> None)"

text \<open>
  A method that can raise after it has written to \<open>self\<close> returns the object as it is at
  the \<open>raise\<close>, next to the error.
\<close>

definition add :: "prims \<Rightarrow> LockedTransfers \<Rightarrow> header \<times> Lock \<Rightarrow> (error + unit) \<times> LockedTransfers" where
  "add P S t =
     (if contains S (hashlock (snd t)) then (Inl AssertionError, S)
      else (Inr (),
            S\<lparr>locked_map := AList.update (hashlock (snd t)) t (locked_map S),
              cached_lock_hashes := cached_lock_hashes S @ [lock_hash P (snd t)],
              cached_root := None\<rparr>))"

text \<open>
  \<open>remove\<close>: \<open>self.get(hashlock)\<close> raises \<open>KeyError\<close> for an unknown hashlock,
  \<open>list.remove\<close> raises \<open>ValueError\<close> when the value is not in the list and deletes its
  first occurrence otherwise.
\<close>

definition remove :: "prims \<Rightarrow> LockedTransfers \<Rightarrow> bytes \<Rightarrow> (error + unit) \<times> LockedTransfers" where
  "remove P S h =
     (case map_of (locked_map S) h of
        None \<Rightarrow> (Inl KeyError, S)
      | Some t \<Rightarrow>
          if lock_hash P (snd t) \<notin> set (cached_lock_hashes S)
          then (Inl (ValueError ''list.remove(x): x not in list''), S)
          else (Inr (),
                S\<lparr>cached_lock_hashes := remove1 (lock_hash P (snd t)) (cached_lock_hashes S),
                  cached_root := None,
                  locked_map := AList.delete h (locked_map S)\<rparr>))"

definition outstanding :: "LockedTransfers \<Rightarrow> int" where
  "outstanding S = sum_list (map (\<lambda>kt. amount (snd (snd kt))) (locked_map S))"

text \<open>The property \<open>root\<close> fills the memo on a miss, so it returns the object too.\<close>

definition root :: "prims \<Rightarrow> LockedTransfers \<Rightarrow> bytes \<times> LockedTransfers" where
  "root P S =
     (case cached_root S of
        None \<Rightarrow> (merkleroot P (cached_lock_hashes S),
                 S\<lparr>cached_root := Some (merkleroot P (cached_lock_hashes S))\<rparr>)
      | Some r \<Rightarrow> (r, S))"

text \<open>
  \<open>root_with(lock, exclude)\<close>. A \<open>Lock\<close> instance is truthy and the two \<open>isinstance\<close>
  guards cannot fail on a value of type \<open>Lock\<close>, so \<open>None\<close> is the only absent
  argument. The digest \<open>lock_hash\<close> is tested for truth before it is taken out again
  (\<open>if lock_hash:\<close>), which an empty digest fails.
\<close>

definition root_with ::
  "prims \<Rightarrow> LockedTransfers \<Rightarrow> Lock option \<Rightarrow> Lock option \<Rightarrow> (error + bytes) \<times> LockedTransfers" where
  "root_with P S lock exclude =
     (let hs1 = (case lock of
                   None \<Rightarrow> cached_lock_hashes S
                 | Some l \<Rightarrow> cached_lock_hashes S @ [lock_hash P l])
      in case (case exclude of
                 None \<Rightarrow> Inr hs1
               | Some e \<Rightarrow>
                   if lock_hash P e \<notin> set hs1
                   then Inl (ValueError ''list.remove(x): x not in list'')
                   else Inr (remove1 (lock_hash P e) hs1)) of
           Inl err \<Rightarrow> (Inl err, S\<lparr>cached_lock_hashes := hs1\<rparr>)
         | Inr hs2 \<Rightarrow>
             (case (case lock of
                      None \<Rightarrow> Inr hs2
                    | Some l \<Rightarrow>
                        if lock_hash P l = [] then Inr hs2
                        else if lock_hash P l \<notin> set hs2 then Inl AssertionError
                        else Inr (remove1 (lock_hash P l) hs2)) of
                Inl err \<Rightarrow> (Inl err, S\<lparr>cached_lock_hashes := hs2\<rparr>)
              | Inr hs3 \<Rightarrow>
                  (Inr (merkleroot P hs2),
                   S\<lparr>cached_lock_hashes :=
                       (case exclude of None \<Rightarrow> hs3 | Some e \<Rightarrow> hs3 @ [lock_hash P e])\<rparr>)))"

section \<open>\<open>ChannelEndState\<close>\<close>

record ChannelEndState =
  contract_balance :: int
  transfered_amount :: int
  address :: bytes
  nonce :: int
  locked :: LockedTransfers

definition ChannelEndState_init :: "bytes \<Rightarrow> int \<Rightarrow> ChannelEndState" where
  "ChannelEndState_init participant_address participant_balance =
     \<lparr>contract_balance = participant_balance,
      transfered_amount = 0,
      address = participant_address,
      nonce = 1,
      locked = LockedTransfers_init\<rparr>"

definition balance :: "ChannelEndState \<Rightarrow> ChannelEndState \<Rightarrow> int" where
  "balance self other = contract_balance self - transfered_amount self + transfered_amount other"

definition update_contract_balance :: "ChannelEndState \<Rightarrow> int \<Rightarrow> ChannelEndState" where
  "update_contract_balance self b = self\<lparr>contract_balance := b\<rparr>"

definition distributable :: "ChannelEndState \<Rightarrow> ChannelEndState \<Rightarrow> int" where
  "distributable self other = balance self other - outstanding (locked other)"

text \<open>
  \<open>ChannelEndState.claim_locked(self, partner, secret, locksroot)\<close>; it returns
  \<open>self\<close> and \<open>partner\<close> as the call leaves them. In \<open>locksroot and ...\<close> the right
  operand, and with it \<open>root_with\<close>, is evaluated only for a truthy \<open>locksroot\<close>:
  neither \<open>None\<close> nor the empty string.
\<close>

definition claim_locked ::
  "prims \<Rightarrow> ChannelEndState \<Rightarrow> ChannelEndState \<Rightarrow> bytes \<Rightarrow> bytes option
     \<Rightarrow> (error + unit) \<times> ChannelEndState \<times> ChannelEndState" where
  "claim_locked P self partner secret locksroot =
     (case map_of (locked_map (locked self)) (sha3 P secret) of
        None \<Rightarrow> (Inl InvalidSecret, self, partner)
      | Some t \<Rightarrow>
          (case (if locksroot = None \<or> locksroot = Some []
                 then (Inr (), locked self)
                 else (case root_with P (locked self) None (Some (snd t)) of
                         (Inl err, S) \<Rightarrow> (Inl err, S)
                       | (Inr r, S) \<Rightarrow>
                           if Some r \<noteq> locksroot then (Inl InvalidLocksRoot, S)
                           else (Inr (), S))) of
             (Inl err, S) \<Rightarrow> (Inl err, self\<lparr>locked := S\<rparr>, partner)
           | (Inr u, S) \<Rightarrow>
               (case remove P S (sha3 P secret) of
                  (res, S') \<Rightarrow>
                    (res, self\<lparr>locked := S'\<rparr>,
                     partner\<lparr>transfered_amount := transfered_amount partner + amount (snd t)\<rparr>))))"

section \<open>\<open>ChannelExternalState\<close> and \<open>Channel\<close>\<close>

text \<open>
  \<open>get_block_number()\<close> is the field \<open>block_number\<close>, read at the moment of the call.
  \<open>register_channel_for_hashlock(channel, hashlock)\<close> is a callback of the node; it is
  recorded as the list of hashlocks it has been called with.
\<close>

record ChannelExternalState =
  block_number :: int
  opened_block :: int
  closed_block :: int
  settled_block :: int
  registered_hashlocks :: "bytes list"

definition ext_isopen :: "ChannelExternalState \<Rightarrow> bool" where
  "ext_isopen e =
     (if closed_block e \<noteq> 0 then False
      else if opened_block e \<noteq> 0 then True
      else False)"

record Channel =
  our_state :: ChannelEndState
  partner_state :: ChannelEndState
  asset_address :: bytes
  reveal_timeout :: int
  settle_timeout :: int
  external_state :: ChannelExternalState
  received_transfers :: "transfer list"
  sent_transfers :: "transfer list"

definition Channel_init ::
  "ChannelEndState \<Rightarrow> ChannelEndState \<Rightarrow> ChannelExternalState \<Rightarrow> bytes \<Rightarrow> int \<Rightarrow> int \<Rightarrow> Channel" where
  "Channel_init our partner ext asset_addr reveal settle =
     \<lparr>our_state = our, partner_state = partner, asset_address = asset_addr,
      reveal_timeout = reveal, settle_timeout = settle, external_state = ext,
      received_transfers = [], sent_transfers = []\<rparr>"

definition isopen :: "Channel \<Rightarrow> bool" where
  "isopen self = ext_isopen (external_state self)"

text \<open>
  The attributes an instance of \<open>ChannelEndState\<close> has: the five that \<open>__init__\<close>
  assigns. Reading any other name raises \<open>AttributeError\<close>. Of the values only the
  integer ones are needed here.
\<close>

definition end_state_getattr :: "ChannelEndState \<Rightarrow> string \<Rightarrow> error + int" where
  "end_state_getattr st name =
     (if name = ''contract_balance'' then Inr (contract_balance st)
      else if name = ''transfered_amount'' then Inr (transfered_amount st)
      else if name = ''nonce'' then Inr (nonce st)
      else Inl (AttributeError name))"

text \<open>The property \<open>Channel.transfered_amount\<close>: \<open>return self.our_state.transfer_amount\<close>.\<close>

definition channel_transfered_amount :: "Channel \<Rightarrow> error + int" where
  "channel_transfered_amount self = end_state_getattr (our_state self) ''transfer_amount''"

text \<open>The property \<open>Channel.contract_balance\<close>, for comparison.\<close>

definition channel_contract_balance :: "Channel \<Rightarrow> error + int" where
  "channel_contract_balance self = end_state_getattr (our_state self) ''contract_balance''"

text \<open>
  \<open>Channel.claim_locked(secret, locksroot)\<close>; the result is the channel as the call
  leaves it.
\<close>

definition channel_claim_locked ::
  "prims \<Rightarrow> Channel \<Rightarrow> bytes \<Rightarrow> bytes option \<Rightarrow> (error + unit) \<times> Channel" where
  "channel_claim_locked P self secret locksroot =
     (if contains (locked (our_state self)) (sha3 P secret)
      then (case claim_locked P (our_state self) (partner_state self) secret locksroot of
              (res, our, partner) \<Rightarrow> (res, self\<lparr>our_state := our, partner_state := partner\<rparr>))
      else if contains (locked (partner_state self)) (sha3 P secret)
      then (case claim_locked P (partner_state self) (our_state self) secret locksroot of
              (res, partner, our) \<Rightarrow> (res, self\<lparr>our_state := our, partner_state := partner\<rparr>))
      else (Inl (ValueError ''The secret doesnt unlock any hashlock''), self))"

text \<open>
  The tail of \<open>register_transfer_from_to\<close>: the two assignments to \<open>from_state\<close>, and the
  \<open>log.debug\<close> call whose argument reads the property \<open>to_state.locked.root\<close>.
\<close>

definition register_tail ::
  "prims \<Rightarrow> header \<Rightarrow> ChannelEndState \<Rightarrow> ChannelEndState \<Rightarrow> ChannelExternalState
     \<Rightarrow> (error + unit) \<times> ChannelEndState \<times> ChannelEndState \<times> ChannelExternalState" where
  "register_tail P h from_state to_state ext =
     (Inr (),
      from_state\<lparr>transfered_amount := m_transfered_amount h, nonce := nonce from_state + 1\<rparr>,
      to_state\<lparr>locked := snd (root P (locked to_state))\<rparr>,
      ext)"

text \<open>
  \<open>register_transfer_from_to(self, transfer, from_state, to_state)\<close>, with the two
  endpoint objects and the external state returned as the call leaves them. The
  \<open>log.error\<close> call of the locksroot mismatch reads \<open>to_state.locked.root\<close> too.
\<close>

definition register_transfer_from_to ::
  "prims \<Rightarrow> Channel \<Rightarrow> transfer \<Rightarrow> ChannelEndState \<Rightarrow> ChannelEndState
     \<Rightarrow> (error + unit) \<times> ChannelEndState \<times> ChannelEndState \<times> ChannelExternalState" where
  "register_transfer_from_to P self transfer from_state to_state =
     (let h = hdr transfer; ext = external_state self in
      if m_asset h \<noteq> asset_address self
      then (Inl (ValueError ''Asset address mismatch''), from_state, to_state, ext)
      else if m_recipient h \<noteq> address to_state
      then (Inl (ValueError ''Unknow recipient''), from_state, to_state, ext)
      else if m_sender h \<noteq> address from_state
      then (Inl (ValueError ''Unsigned transfer''), from_state, to_state, ext)
      else if m_transfered_amount h < transfered_amount from_state
      then (Inl (ValueError ''Negative transfer''), from_state, to_state, ext)
      else if m_nonce h < 1 \<or> m_nonce h \<noteq> nonce from_state
      then (Inl InvalidNonce, from_state, to_state, ext)
      else if m_transfered_amount h - transfered_amount from_state > distributable from_state to_state
      then (Inl InsufficientBalance, from_state, to_state, ext)
      else
        (case transfer of
           LockedTransfer h' l \<Rightarrow>
             if m_transfered_amount h - transfered_amount from_state + amount l
                  > distributable from_state to_state
             then (Inl InsufficientBalance, from_state, to_state, ext)
             else
               (case root_with P (locked to_state) (Some l) None of
                  (Inl err, S) \<Rightarrow> (Inl err, from_state, to_state\<lparr>locked := S\<rparr>, ext)
                | (Inr expected_locksroot, S) \<Rightarrow>
                    if expected_locksroot \<noteq> m_locksroot h
                    then (Inl InvalidLocksRoot, from_state,
                          to_state\<lparr>locked := snd (root P S)\<rparr>, ext)
                    else if \<not> expiration l - block_number ext < settle_timeout self
                    then (Inl (ValueError ''Transfer expiration doesn't allow for corret settlement.''),
                          from_state, to_state\<lparr>locked := S\<rparr>, ext)
                    else if \<not> expiration l - block_number ext > reveal_timeout self
                    then (Inl (ValueError ''Expiration smaller than the minimum requried.''),
                          from_state, to_state\<lparr>locked := S\<rparr>, ext)
                    else
                      (case add P S (h, l) of
                         (Inl err, S') \<Rightarrow> (Inl err, from_state, to_state\<lparr>locked := S'\<rparr>, ext)
                       | (Inr u, S') \<Rightarrow>
                           register_tail P h from_state (to_state\<lparr>locked := S'\<rparr>)
                             (ext\<lparr>registered_hashlocks := registered_hashlocks ext @ [hashlock l]\<rparr>)))
         | DirectTransfer h' secret \<Rightarrow>
             (case secret of
                None \<Rightarrow> register_tail P h from_state to_state ext
              | Some s \<Rightarrow>
                  if s = [] then register_tail P h from_state to_state ext
                  else
                    (case claim_locked P to_state from_state s (Some (m_locksroot h)) of
                       (Inl err, to', from') \<Rightarrow> (Inl err, from', to', ext)
                     | (Inr u, to', from') \<Rightarrow> register_tail P h from' to' ext))))"

text \<open>
  \<open>register_transfer(self, transfer)\<close>. The optional \<open>callback\<close> and the list
  \<open>transfer_callbacks\<close> it is stored in are left out.
\<close>

definition register_transfer :: "prims \<Rightarrow> Channel \<Rightarrow> transfer \<Rightarrow> (error + unit) \<times> Channel" where
  "register_transfer P self transfer =
     (if m_recipient (hdr transfer) = address (partner_state self)
      then (case register_transfer_from_to P self transfer (our_state self) (partner_state self) of
              (Inl err, f, t, e) \<Rightarrow>
                (Inl err, self\<lparr>our_state := f, partner_state := t, external_state := e\<rparr>)
            | (Inr u, f, t, e) \<Rightarrow>
                (Inr (), self\<lparr>our_state := f, partner_state := t, external_state := e,
                           sent_transfers := sent_transfers self @ [transfer]\<rparr>))
      else if m_recipient (hdr transfer) = address (our_state self)
      then (case register_transfer_from_to P self transfer (partner_state self) (our_state self) of
              (Inl err, f, t, e) \<Rightarrow>
                (Inl err, self\<lparr>our_state := t, partner_state := f, external_state := e\<rparr>)
            | (Inr u, f, t, e) \<Rightarrow>
                (Inr (), self\<lparr>our_state := t, partner_state := f, external_state := e,
                           received_transfers := received_transfers self @ [transfer]\<rparr>))
      else (Inl (ValueError ''Invalid address''), self))"

text \<open>
  The constructors return the unsigned message; reading \<open>to_.locked.root\<close> or calling
  \<open>root_with\<close> touches the partner's lock container, so the channel is returned as well.
\<close>

definition create_directtransfer ::
  "prims \<Rightarrow> Channel \<Rightarrow> int \<Rightarrow> bytes option \<Rightarrow> (error + transfer) \<times> Channel" where
  "create_directtransfer P self amt secret =
     (if \<not> isopen self then (Inl (ValueError ''The channel is closed''), self)
      else if amt \<le> 0 \<or> amt > distributable (our_state self) (partner_state self)
      then (Inl (ValueError ''Insufficient funds''), self)
      else
        (case root P (locked (partner_state self)) of
           (current_locksroot, S) \<Rightarrow>
             (Inr (DirectTransfer
                     \<lparr>m_nonce = nonce (our_state self),
                      m_asset = asset_address self,
                      m_transfered_amount = transfered_amount (our_state self) + amt,
                      m_recipient = address (partner_state self),
                      m_locksroot = current_locksroot,
                      m_sender = []\<rparr>
                     secret),
              self\<lparr>partner_state := (partner_state self)\<lparr>locked := S\<rparr>\<rparr>)))"

definition create_lockedtransfer ::
  "prims \<Rightarrow> Channel \<Rightarrow> int \<Rightarrow> int \<Rightarrow> bytes \<Rightarrow> (error + transfer) \<times> Channel" where
  "create_lockedtransfer P self amt expir hl =
     (if \<not> isopen self then (Inl (ValueError ''The channel is closed''), self)
      else if expir - block_number (external_state self) \<ge> settle_timeout self
      then (Inl (ValueError ''Invalid expiration''), self)
      else if expir - reveal_timeout self < block_number (external_state self)
      then (Inl (ValueError ''Invalid expiration''), self)
      else if amt \<le> 0 \<or> amt > distributable (our_state self) (partner_state self)
      then (Inl (ValueError ''Insufficient funds''), self)
      else
        (case root_with P (locked (partner_state self))
                (Some \<lparr>amount = amt, expiration = expir, hashlock = hl\<rparr>) None of
           (Inl err, S) \<Rightarrow> (Inl err, self\<lparr>partner_state := (partner_state self)\<lparr>locked := S\<rparr>\<rparr>)
         | (Inr updated_locksroot, S) \<Rightarrow>
             (Inr (LockedTransfer
                     \<lparr>m_nonce = nonce (our_state self),
                      m_asset = asset_address self,
                      m_transfered_amount = transfered_amount (our_state self),
                      m_recipient = address (partner_state self),
                      m_locksroot = updated_locksroot,
                      m_sender = []\<rparr>
                     \<lparr>amount = amt, expiration = expir, hashlock = hl\<rparr>),
              self\<lparr>partner_state := (partner_state self)\<lparr>locked := S\<rparr>\<rparr>)))"

text \<open>
  Modelled from the spec: signing, which happens outside \<open>channel.py\<close>
  (\<open>app.raiden.sign(transfer)\<close> in the tests). The spec says that the sender is recovered
  from the signature, so signing with the key of \<open>addr\<close> makes \<open>transfer.sender\<close> read
  \<open>addr\<close> and changes no other field.
\<close>

fun sign :: "bytes \<Rightarrow> transfer \<Rightarrow> transfer" where
  "sign addr (DirectTransfer h s) = DirectTransfer (h\<lparr>m_sender := addr\<rparr>) s"
| "sign addr (LockedTransfer h l) = LockedTransfer (h\<lparr>m_sender := addr\<rparr>) l"

section \<open>Auxiliary notions for the statements\<close>

text \<open>
  The invariant of a lock container that is only used through the channel: the hash
  sequence holds exactly the digests of the pending locks (in some order), every hashlock
  is a key once, and every entry is filed under the hashlock of its own lock.
\<close>

definition lockset_inv :: "prims \<Rightarrow> LockedTransfers \<Rightarrow> bool" where
  "lockset_inv P S =
     (mset (cached_lock_hashes S) = mset (map (\<lambda>kt. lock_hash P (snd (snd kt))) (locked_map S))
      \<and> distinct (map fst (locked_map S))
      \<and> (\<forall>kt \<in> set (locked_map S). hashlock (snd (snd kt)) = fst kt))"

text \<open>What the property \<open>root\<close> would return, without filling the memo.\<close>

definition root_value :: "prims \<Rightarrow> LockedTransfers \<Rightarrow> bytes" where
  "root_value P S = fst (root P S)"

text \<open>Rules 1 to 6 of \<open>register_transfer_from_to\<close>, the checks shared by all transfers.\<close>

definition common_checks_pass ::
  "Channel \<Rightarrow> header \<Rightarrow> ChannelEndState \<Rightarrow> ChannelEndState \<Rightarrow> bool" where
  "common_checks_pass self h from_state to_state =
     (m_asset h = asset_address self
      \<and> m_recipient h = address to_state
      \<and> m_sender h = address from_state
      \<and> transfered_amount from_state \<le> m_transfered_amount h
      \<and> 1 \<le> m_nonce h \<and> m_nonce h = nonce from_state
      \<and> m_transfered_amount h - transfered_amount from_state \<le> distributable from_state to_state)"

text \<open>The Python class of an exception, which is what an \<open>except\<close> clause matches on.\<close>

fun exc_class :: "error \<Rightarrow> string" where
  "exc_class InvalidNonce = ''InvalidNonce''"
| "exc_class InvalidSecret = ''InvalidSecret''"
| "exc_class InvalidLocksRoot = ''InvalidLocksRoot''"
| "exc_class InvalidLockTime = ''InvalidLockTime''"
| "exc_class InsufficientBalance = ''InsufficientBalance''"
| "exc_class (ValueError msg) = ''ValueError''"
| "exc_class AssertionError = ''AssertionError''"
| "exc_class KeyError = ''KeyError''"
| "exc_class (AttributeError name) = ''AttributeError''"

subsection \<open>The operations of a channel as a transition system\<close>

text \<open>
  The calls that a node makes on a channel and its two endpoint objects, and the
  observer of the chain, which moves the block number and the lifecycle blocks.
\<close>

datatype op =
    Register transfer
  | ClaimLocked bytes "bytes option"
  | CreateDirect int "bytes option"
  | CreateLocked int int bytes
  | UpdateOurBalance int
  | UpdatePartnerBalance int
  | ChainUpdate int int int int

fun exec_op :: "prims \<Rightarrow> Channel \<Rightarrow> op \<Rightarrow> (error + unit) \<times> Channel" where
  "exec_op P c (Register t) = register_transfer P c t"
| "exec_op P c (ClaimLocked secret locksroot) = channel_claim_locked P c secret locksroot"
| "exec_op P c (CreateDirect amt secret) =
     (case create_directtransfer P c amt secret of
        (Inl err, c') \<Rightarrow> (Inl err, c')
      | (Inr m, c') \<Rightarrow> (Inr (), c'))"
| "exec_op P c (CreateLocked amt expir hl) =
     (case create_lockedtransfer P c amt expir hl of
        (Inl err, c') \<Rightarrow> (Inl err, c')
      | (Inr m, c') \<Rightarrow> (Inr (), c'))"
| "exec_op P c (UpdateOurBalance b) =
     (Inr (), c\<lparr>our_state := update_contract_balance (our_state c) b\<rparr>)"
| "exec_op P c (UpdatePartnerBalance b) =
     (Inr (), c\<lparr>partner_state := update_contract_balance (partner_state c) b\<rparr>)"
| "exec_op P c (ChainUpdate b opened closed settled) =
     (Inr (), c\<lparr>external_state := (external_state c)
                 \<lparr>block_number := b, opened_block := opened,
                  closed_block := closed, settled_block := settled\<rparr>\<rparr>)"

text \<open>
  The channels a node can hold: a freshly constructed one over two fresh endpoint states,
  and whatever any call leaves behind, whether it returned or raised.
\<close>

inductive reachable :: "prims \<Rightarrow> Channel \<Rightarrow> bool" for P :: prims where
  fresh: "reachable P (Channel_init (ChannelEndState_init a1 b1) (ChannelEndState_init a2 b2)
                         ext asset_addr reveal settle)"
| step: "reachable P c \<Longrightarrow> reachable P (snd (exec_op P c operation))"

subsection \<open>Concrete instances\<close>

text \<open>
  Stand-ins for the three imported primitives, for evaluating the operations on concrete
  channels: a digest that tags its input, a lock encoding that lists the three fields,
  and a root that lists the hashes in sequence order. All three are injective, and no
  digest is empty.
\<close>

definition demo_prims :: prims where
  "demo_prims =
     \<lparr>sha3 = (\<lambda>x. CHR ''#'' # x),
      as_bytes = (\<lambda>l. hashlock l @ CHR ''|'' # replicate (nat (amount l)) CHR ''a''
                        @ CHR ''|'' # replicate (nat (expiration l)) CHR ''e''),
      merkleroot = (\<lambda>hs. CHR ''R'' # concat (map (\<lambda>h. CHR ''<'' # h @ ''>'') hs))\<rparr>"

definition lock1 :: Lock where
  "lock1 = \<lparr>amount = 10, expiration = 15, hashlock = ''#s1''\<rparr>"

definition lock2 :: Lock where
  "lock2 = \<lparr>amount = 20, expiration = 16, hashlock = ''#t2''\<rparr>"

text \<open>A channel between \<open>A\<close> (us) and \<open>B\<close>, open since block 1, at block 10.\<close>

definition demo_ext :: ChannelExternalState where
  "demo_ext = \<lparr>block_number = 10, opened_block = 1, closed_block = 0, settled_block = 0,
               registered_hashlocks = []\<rparr>"

definition demo_channel :: Channel where
  "demo_channel =
     Channel_init (ChannelEndState_init ''A'' 100) (ChannelEndState_init ''B'' 100)
       demo_ext ''T'' 3 20"

definition lock3 :: Lock where
  "lock3 = \<lparr>amount = 5, expiration = 17, hashlock = ''#u3''\<rparr>"

text \<open>The header of a message from \<open>B\<close> to \<open>A\<close> that moves no unlocked amount.\<close>

definition inbound_header :: "int \<Rightarrow> bytes \<Rightarrow> header" where
  "inbound_header n lr =
     \<lparr>m_nonce = n, m_asset = ''T'', m_transfered_amount = 0, m_recipient = ''A'',
      m_locksroot = lr, m_sender = ''B''\<rparr>"

text \<open>A lock container that holds \<open>lock1\<close> only.\<close>

definition demo_lockset1 :: LockedTransfers where
  "demo_lockset1 = snd (add demo_prims LockedTransfers_init (inbound_header 1 ''r'', lock1))"

text \<open>
  A \<open>LockedTransfer\<close> from \<open>B\<close> to \<open>A\<close> for the lock \<open>l\<close>, committing to the root
  over the digests of \<open>pending\<close>.
\<close>

definition inbound_locked :: "int \<Rightarrow> Lock \<Rightarrow> Lock list \<Rightarrow> transfer" where
  "inbound_locked n l pending =
     LockedTransfer (inbound_header n (merkleroot demo_prims (map (lock_hash demo_prims) pending))) l"

text \<open>
  The channel after \<open>B\<close> has sent three locked transfers and the secret of the third has
  been claimed: \<open>A\<close> holds \<open>lock1\<close> and \<open>lock2\<close>, and the memo of its container is empty.
\<close>

definition demo_channel_two_locks :: Channel where
  "demo_channel_two_locks =
     foldl (\<lambda>c operation. snd (exec_op demo_prims c operation)) demo_channel
       [Register (inbound_locked 1 lock1 [lock1]),
        Register (inbound_locked 2 lock2 [lock1, lock2]),
        Register (inbound_locked 3 lock3 [lock1, lock2, lock3]),
        ClaimLocked ''u3'' None]"

text \<open>
  A \<open>DirectTransfer\<close> from \<open>B\<close> that reveals the secret of \<open>lock1\<close> and commits to a
  root that is not the one \<open>A\<close> computes.
\<close>

definition bad_claim :: transfer where
  "bad_claim =
     DirectTransfer
       \<lparr>m_nonce = 4, m_asset = ''T'', m_transfered_amount = 5, m_recipient = ''A'',
        m_locksroot = ''bogus'', m_sender = ''B''\<rparr>
       (Some ''s1'')"

text \<open>A lock that expires 50 blocks after block 10, beyond the settle timeout of 20.\<close>

definition lock_late :: Lock where
  "lock_late = \<lparr>amount = 10, expiration = 60, hashlock = ''#s1''\<rparr>"

text \<open>The signed \<open>LockedTransfer\<close> for \<open>lock1\<close> from \<open>A\<close> to \<open>B\<close>, and the channel after
  \<open>A\<close> has registered it.\<close>

definition outbound_locked1 :: transfer where
  "outbound_locked1 =
     LockedTransfer
       \<lparr>m_nonce = 1, m_asset = ''T'', m_transfered_amount = 0, m_recipient = ''B'',
        m_locksroot = merkleroot demo_prims [lock_hash demo_prims lock1], m_sender = ''A''\<rparr>
       lock1"

definition demo_channel_sent1 :: Channel where
  "demo_channel_sent1 = snd (register_transfer demo_prims demo_channel outbound_locked1)"


text \<open>
  The unsigned \<open>DirectTransfer\<close> of 5 with the secret of \<open>lock1\<close>, as
  \<open>create_directtransfer\<close> builds it once \<open>lock1\<close> is pending at \<open>B\<close>.
\<close>

definition direct_claim1 :: transfer where
  "direct_claim1 =
     DirectTransfer
       \<lparr>m_nonce = 2, m_asset = ''T'', m_transfered_amount = 5, m_recipient = ''B'',
        m_locksroot = merkleroot demo_prims [lock_hash demo_prims lock1], m_sender = []\<rparr>
       (Some ''s1'')"

text \<open>
  A lock that expires exactly \<open>reveal_timeout\<close> blocks after block 10, and the unsigned
  \<open>LockedTransfer\<close> that \<open>create_lockedtransfer\<close> builds for it on the fresh channel.
\<close>

definition lock_at_reveal :: Lock where
  "lock_at_reveal = \<lparr>amount = 10, expiration = 13, hashlock = ''#s1''\<rparr>"

definition locked_at_reveal :: transfer where
  "locked_at_reveal =
     LockedTransfer
       \<lparr>m_nonce = 1, m_asset = ''T'', m_transfered_amount = 0, m_recipient = ''B'',
        m_locksroot = merkleroot demo_prims [lock_hash demo_prims lock_at_reveal], m_sender = []\<rparr>
       lock_at_reveal"

text \<open>The same channel after the chain has reported its closing at block 12.\<close>

definition demo_channel_closed :: Channel where
  "demo_channel_closed = demo_channel\<lparr>external_state := demo_ext\<lparr>closed_block := 12\<rparr>\<rparr>"

text \<open>
  Two endpoint states agree in every field but the order of the hash sequence and the
  memo of the root.
\<close>

definition same_endpoint :: "ChannelEndState \<Rightarrow> ChannelEndState \<Rightarrow> bool" where
  "same_endpoint s s' =
     (contract_balance s' = contract_balance s \<and> transfered_amount s' = transfered_amount s
      \<and> address s' = address s \<and> nonce s' = nonce s
      \<and> locked_map (locked s') = locked_map (locked s)
      \<and> mset (cached_lock_hashes (locked s')) = mset (cached_lock_hashes (locked s)))"

text \<open>Both lock containers of a channel are in their invariant.\<close>

definition channel_inv :: "prims \<Rightarrow> Channel \<Rightarrow> bool" where
  "channel_inv P c =
     (lockset_inv P (locked (our_state c)) \<and> lockset_inv P (locked (partner_state c)))"

section \<open>Properties of \<open>LockedTransfers\<close>\<close>

lemma remove1_append_fresh: "x \<notin> set xs \<Longrightarrow> remove1 x (xs @ [x]) = xs"
  by (induction xs) auto

lemma fresh_lock_hash:
  assumes "lockset_inv P S" "\<not> contains S (hashlock L)"
    and "\<forall>kt \<in> set (locked_map S). lock_hash P (snd (snd kt)) = lock_hash P L \<longrightarrow> snd (snd kt) = L"
  shows "lock_hash P L \<notin> set (cached_lock_hashes S)"
proof
  assume "lock_hash P L \<in> set (cached_lock_hashes S)"
  then have "lock_hash P L \<in> set (map (\<lambda>kt. lock_hash P (snd (snd kt))) (locked_map S))"
    using assms(1) unfolding lockset_inv_def by (metis set_mset_mset)
  then obtain kt where kt: "kt \<in> set (locked_map S)" "lock_hash P (snd (snd kt)) = lock_hash P L"
    by auto
  then have "snd (snd kt) = L" using assms(3) by blast
  then have "fst kt = hashlock L" using assms(1) kt(1) unfolding lockset_inv_def by auto
  then have "map_of (locked_map S) (hashlock L) \<noteq> None"
    using kt(1) by (metis map_of_eq_None_iff image_eqI)
  then show False using assms(2) by (simp add: contains_def)
qed

text \<open>
  C3. Let \<open>S\<close> be a lock container in its invariant and \<open>L\<close> a lock whose hashlock is
  not in \<open>S\<close>, whose digest is not empty and does not collide with the digest of a
  different pending lock. Then \<open>S.root_with(L)\<close> returns what \<open>S.root\<close> returns
  after \<open>S.add\<close> of a transfer carrying \<open>L\<close> (which succeeds), and it leaves \<open>S\<close>, the
  mapping, the hash sequence and the memo, exactly as it was.
\<close>

theorem root_with_include_agrees_with_add:
  assumes "lockset_inv P S" "\<not> contains S (hashlock L)" "lock_hash P L \<noteq> []"
    and "\<forall>kt \<in> set (locked_map S). lock_hash P (snd (snd kt)) = lock_hash P L \<longrightarrow> snd (snd kt) = L"
  shows "root_with P S (Some L) None = (Inr (fst (root P (snd (add P S (h, L))))), S)
         \<and> fst (add P S (h, L)) = Inr ()"
proof -
  have fresh: "lock_hash P L \<notin> set (cached_lock_hashes S)"
    using fresh_lock_hash [OF assms(1,2,4)] .
  show ?thesis
    using fresh assms(2,3)
    by (simp add: root_with_def add_def root_def remove1_append_fresh)
qed

lemmas demo_lockset_simps =
  demo_prims_def lock1_def lock2_def lock3_def lock_hash_def LockedTransfers_init_def
  demo_lockset1_def add_def contains_def lockset_inv_def root_def root_with_def Let_def

theorem root_with_include_agrees_with_add_witness:
  "lockset_inv demo_prims demo_lockset1
   \<and> \<not> contains demo_lockset1 (hashlock lock2)
   \<and> lock_hash demo_prims lock2 \<noteq> []
   \<and> root_with demo_prims demo_lockset1 (Some lock2) None
       = (Inr (merkleroot demo_prims [lock_hash demo_prims lock1, lock_hash demo_prims lock2]),
          demo_lockset1)
   \<and> fst (add demo_prims demo_lockset1 (inbound_header 2 ''r'', lock2)) = Inr ()"
proof -
  have a: "lockset_inv demo_prims demo_lockset1"
    by (simp add: demo_lockset_simps)
  have b: "\<not> contains demo_lockset1 (hashlock lock2)"
    by (simp add: demo_lockset_simps)
  have c: "lock_hash demo_prims lock2 \<noteq> []"
    by (simp add: demo_lockset_simps)
  have d: "\<forall>kt \<in> set (locked_map demo_lockset1).
             lock_hash demo_prims (snd (snd kt)) = lock_hash demo_prims lock2 \<longrightarrow> snd (snd kt) = lock2"
    by (simp add: demo_lockset_simps)
  have e: "fst (root demo_prims (snd (add demo_prims demo_lockset1 (inbound_header 2 ''r'', lock2))))
           = merkleroot demo_prims [lock_hash demo_prims lock1, lock_hash demo_prims lock2]"
    by (simp add: demo_lockset_simps)
  show ?thesis
    using root_with_include_agrees_with_add [OF a b c d, of "inbound_header 2 ''r''"] a b c e
    by simp
qed

text \<open>What \<open>root_with\<close> does with one argument, in closed form.\<close>

lemma root_with_include_only:
  "root_with P S (Some L) None =
     (Inr (merkleroot P (cached_lock_hashes S @ [lock_hash P L])),
      S\<lparr>cached_lock_hashes :=
          (if lock_hash P L = [] then cached_lock_hashes S @ [lock_hash P L]
           else remove1 (lock_hash P L) (cached_lock_hashes S @ [lock_hash P L]))\<rparr>)"
  by (simp add: root_with_def Let_def)

lemma root_with_exclude_present:
  assumes "lock_hash P E \<in> set (cached_lock_hashes S)"
  shows "root_with P S None (Some E) =
           (Inr (merkleroot P (remove1 (lock_hash P E) (cached_lock_hashes S))),
            S\<lparr>cached_lock_hashes := remove1 (lock_hash P E) (cached_lock_hashes S) @ [lock_hash P E]\<rparr>)"
  using assms by (simp add: root_with_def Let_def)

text \<open>
  C4 (the code departs from it). When \<open>exclude\<close> is a lock whose digest is not in the hash
  sequence and differs from the digest of \<open>lock\<close>, \<open>root_with(lock, exclude)\<close> raises
  the \<open>ValueError\<close> of \<open>list.remove\<close> after it has appended the digest of \<open>lock\<close>:
  the hash sequence is left one entry longer than it was before the call.
\<close>

theorem root_with_absent_exclude_keeps_included_hash:
  assumes "lock_hash P E \<notin> set (cached_lock_hashes S)" "lock_hash P E \<noteq> lock_hash P L"
  shows "root_with P S (Some L) (Some E) =
           (Inl (ValueError ''list.remove(x): x not in list''),
            S\<lparr>cached_lock_hashes := cached_lock_hashes S @ [lock_hash P L]\<rparr>)
         \<and> cached_lock_hashes (snd (root_with P S (Some L) (Some E))) \<noteq> cached_lock_hashes S"
  using assms by (simp add: root_with_def Let_def)

theorem root_with_absent_exclude_keeps_included_hash_witness:
  "lock_hash demo_prims lock3 \<notin> set (cached_lock_hashes demo_lockset1)
   \<and> lock_hash demo_prims lock3 \<noteq> lock_hash demo_prims lock2
   \<and> cached_lock_hashes demo_lockset1 = [lock_hash demo_prims lock1]
   \<and> fst (root_with demo_prims demo_lockset1 (Some lock2) (Some lock3))
       = Inl (ValueError ''list.remove(x): x not in list'')
   \<and> cached_lock_hashes (snd (root_with demo_prims demo_lockset1 (Some lock2) (Some lock3)))
       = [lock_hash demo_prims lock1, lock_hash demo_prims lock2]"
proof -
  have a: "lock_hash demo_prims lock3 \<notin> set (cached_lock_hashes demo_lockset1)"
    by (simp add: demo_lockset_simps)
  have b: "lock_hash demo_prims lock3 \<noteq> lock_hash demo_prims lock2"
    by (simp add: demo_lockset_simps)
  have c: "cached_lock_hashes demo_lockset1 = [lock_hash demo_prims lock1]"
    by (simp add: demo_lockset_simps)
  show ?thesis
    using root_with_absent_exclude_keeps_included_hash [OF a b] a b c by simp
qed

section \<open>Properties of \<open>Channel\<close>\<close>

lemmas demo_channel_simps =
  demo_lockset_simps demo_channel_def demo_ext_def Channel_init_def ChannelEndState_init_def
  inbound_header_def register_transfer_def register_transfer_from_to_def
  register_tail_def claim_locked_def channel_claim_locked_def remove_def
  distributable_def balance_def outstanding_def common_checks_pass_def root_value_def
  isopen_def ext_isopen_def create_directtransfer_def create_lockedtransfer_def

text \<open>
  C9 (the code departs from it). Reading the property \<open>Channel.transfered_amount\<close>
  raises \<open>AttributeError\<close> on every channel, since it reads the attribute
  \<open>transfer_amount\<close>, which \<open>ChannelEndState\<close> does not have; it never returns the
  amount we transferred.
\<close>

theorem channel_transfered_amount_raises:
  "channel_transfered_amount c = Inl (AttributeError ''transfer_amount'')"
  by (simp add: channel_transfered_amount_def end_state_getattr_def)

text \<open>
  C10. A \<open>DirectTransfer\<close> that passes the six common checks and carries a non-empty
  secret whose hash is not in the recipient's lock container is rejected with
  \<open>InvalidSecret\<close>, and both endpoint states and the external state are returned exactly
  as they were passed in: neither the nonce nor the transferred amount of the sender moves.
\<close>

theorem direct_transfer_unknown_secret_rejected:
  assumes "common_checks_pass self h from_state to_state" "s \<noteq> []"
    and "\<not> contains (locked to_state) (sha3 P s)"
  shows "register_transfer_from_to P self (DirectTransfer h (Some s)) from_state to_state
           = (Inl InvalidSecret, from_state, to_state, external_state self)"
proof -
  have absent: "map_of (locked_map (locked to_state)) (sha3 P s) = None"
    using assms(3) unfolding contains_def by blast
  show ?thesis
    using assms(1,2) absent
    by (simp add: register_transfer_from_to_def common_checks_pass_def claim_locked_def Let_def)
qed

theorem direct_transfer_unknown_secret_rejected_witness:
  "common_checks_pass demo_channel (inbound_header 1 ''r'') (partner_state demo_channel) (our_state demo_channel)
   \<and> ''zz'' \<noteq> []
   \<and> \<not> contains (locked (our_state demo_channel)) (sha3 demo_prims ''zz'')
   \<and> register_transfer_from_to demo_prims demo_channel
        (DirectTransfer (inbound_header 1 ''r'') (Some ''zz''))
        (partner_state demo_channel) (our_state demo_channel)
       = (Inl InvalidSecret, partner_state demo_channel, our_state demo_channel, demo_ext)"
proof -
  have a: "common_checks_pass demo_channel (inbound_header 1 ''r'') (partner_state demo_channel) (our_state demo_channel)"
    by (simp add: demo_channel_simps)
  have b: "''zz'' \<noteq> []" by simp
  have c: "\<not> contains (locked (our_state demo_channel)) (sha3 demo_prims ''zz'')"
    by (simp add: demo_channel_simps)
  have d: "external_state demo_channel = demo_ext"
    by (simp add: demo_channel_simps)
  show ?thesis
    using direct_transfer_unknown_secret_rejected [OF a b c] a c d by simp
qed

text \<open>
  C2, as stated, fails: a \<open>LockedTransfer\<close> that passes rules 1 to 7, whose expiration is
  outside the settle window and whose locksroot is not the expected one, is rejected with
  \<open>InvalidLocksRoot\<close>, not with the error of the expiration checks.
\<close>

theorem expiration_before_locksroot_counterexample:
  "common_checks_pass demo_channel (inbound_header 1 ''bogus'')
      (partner_state demo_channel) (our_state demo_channel)
   \<and> \<not> expiration lock_late - block_number (external_state demo_channel) < settle_timeout demo_channel
   \<and> fst (root_with demo_prims (locked (our_state demo_channel)) (Some lock_late) None) \<noteq> Inr ''bogus''
   \<and> fst (register_transfer_from_to demo_prims demo_channel
             (LockedTransfer (inbound_header 1 ''bogus'') lock_late)
             (partner_state demo_channel) (our_state demo_channel))
       = Inl InvalidLocksRoot"
  by (simp add: demo_channel_simps lock_late_def)

text \<open>
  C2, amended. For a \<open>LockedTransfer\<close> that passes rules 1 to 7 and violates the
  expiration window, the locksroot check comes first: the call fails with
  \<open>InvalidLocksRoot\<close> when the locksroot differs from the root over the recipient's hash
  sequence extended by the digest of the lock, and with the error of the violated
  expiration check only when the locksroot agrees.
\<close>

theorem locksroot_checked_before_expiration:
  assumes "common_checks_pass self h from_state to_state"
    and "m_transfered_amount h - transfered_amount from_state + amount l
           \<le> distributable from_state to_state"
    and "\<not> expiration l - block_number (external_state self) < settle_timeout self
         \<or> \<not> expiration l - block_number (external_state self) > reveal_timeout self"
  shows "fst (register_transfer_from_to P self (LockedTransfer h l) from_state to_state)
           = (if merkleroot P (cached_lock_hashes (locked to_state) @ [lock_hash P l]) \<noteq> m_locksroot h
              then Inl InvalidLocksRoot
              else if \<not> expiration l - block_number (external_state self) < settle_timeout self
              then Inl (ValueError ''Transfer expiration doesn't allow for corret settlement.'')
              else Inl (ValueError ''Expiration smaller than the minimum requried.''))"
  using assms
  by (auto simp: register_transfer_from_to_def common_checks_pass_def root_with_include_only Let_def)

theorem locksroot_checked_before_expiration_witness:
  "common_checks_pass demo_channel (inbound_header 1 ''bogus'')
      (partner_state demo_channel) (our_state demo_channel)
   \<and> m_transfered_amount (inbound_header 1 ''bogus'') - transfered_amount (partner_state demo_channel)
        + amount lock_late \<le> distributable (partner_state demo_channel) (our_state demo_channel)
   \<and> \<not> expiration lock_late - block_number (external_state demo_channel) < settle_timeout demo_channel
   \<and> fst (register_transfer_from_to demo_prims demo_channel
             (LockedTransfer (inbound_header 1 ''bogus'') lock_late)
             (partner_state demo_channel) (our_state demo_channel))
       = Inl InvalidLocksRoot"
proof -
  have a: "common_checks_pass demo_channel (inbound_header 1 ''bogus'')
      (partner_state demo_channel) (our_state demo_channel)"
    by (simp add: demo_channel_simps)
  have b: "m_transfered_amount (inbound_header 1 ''bogus'') - transfered_amount (partner_state demo_channel)
        + amount lock_late \<le> distributable (partner_state demo_channel) (our_state demo_channel)"
    by (simp add: demo_channel_simps lock_late_def)
  have c: "\<not> expiration lock_late - block_number (external_state demo_channel) < settle_timeout demo_channel"
    by (simp add: demo_channel_simps lock_late_def)
  have d: "merkleroot demo_prims (cached_lock_hashes (locked (our_state demo_channel)) @ [lock_hash demo_prims lock_late])
             \<noteq> m_locksroot (inbound_header 1 ''bogus'')"
    by (simp add: demo_channel_simps lock_late_def)
  show ?thesis
    using locksroot_checked_before_expiration [OF a b disjI1 [OF c], of demo_prims] a b c d
    by simp
qed

text \<open>
  C5 (the code departs from it). Whatever the secret, the locksroot of the message
  that \<open>create_directtransfer\<close> returns is the partner's current root; the lock that
  the secret claims is not taken out of it.
\<close>

theorem create_directtransfer_locksroot_is_current_root:
  assumes "create_directtransfer P c amt secret = (Inr m, c')"
  shows "m_locksroot (hdr m) = root_value P (locked (partner_state c))"
  using assms
  by (auto simp: create_directtransfer_def root_value_def split: if_splits prod.splits)

text \<open>
  With \<open>lock1\<close> pending at the partner and its secret given, the returned locksroot is
  the root over \<open>lock1\<close>, not the root without it, and registering the signed message
  on the same channel fails with \<open>InvalidLocksRoot\<close>.
\<close>

theorem create_directtransfer_locksroot_is_current_root_witness:
  "create_directtransfer demo_prims demo_channel_sent1 5 (Some ''s1'')
     = (Inr direct_claim1, demo_channel_sent1)
   \<and> contains (locked (partner_state demo_channel_sent1)) (sha3 demo_prims ''s1'')
   \<and> m_locksroot (hdr direct_claim1) = root_value demo_prims (locked (partner_state demo_channel_sent1))
   \<and> m_locksroot (hdr direct_claim1) = merkleroot demo_prims [lock_hash demo_prims lock1]
   \<and> fst (root_with demo_prims (locked (partner_state demo_channel_sent1)) None (Some lock1))
       = Inr (merkleroot demo_prims [])
   \<and> merkleroot demo_prims [lock_hash demo_prims lock1] \<noteq> merkleroot demo_prims []
   \<and> fst (register_transfer demo_prims demo_channel_sent1 (sign ''A'' direct_claim1))
       = Inl InvalidLocksRoot"
proof -
  have a: "create_directtransfer demo_prims demo_channel_sent1 5 (Some ''s1'')
             = (Inr direct_claim1, demo_channel_sent1)"
    by (simp add: demo_channel_simps demo_channel_sent1_def outbound_locked1_def direct_claim1_def)
  have b: "contains (locked (partner_state demo_channel_sent1)) (sha3 demo_prims ''s1'')"
    by (simp add: demo_channel_simps demo_channel_sent1_def outbound_locked1_def)
  have c: "m_locksroot (hdr direct_claim1) = merkleroot demo_prims [lock_hash demo_prims lock1]"
    by (simp add: direct_claim1_def)
  have d: "fst (root_with demo_prims (locked (partner_state demo_channel_sent1)) None (Some lock1))
       = Inr (merkleroot demo_prims [])"
    by (simp add: demo_channel_simps demo_channel_sent1_def outbound_locked1_def)
  have e: "merkleroot demo_prims [lock_hash demo_prims lock1] \<noteq> merkleroot demo_prims []"
    by (simp add: demo_prims_def)
  have f: "fst (register_transfer demo_prims demo_channel_sent1 (sign ''A'' direct_claim1))
       = Inl InvalidLocksRoot"
    by (simp add: demo_channel_simps demo_channel_sent1_def outbound_locked1_def direct_claim1_def)
  show ?thesis
    using create_directtransfer_locksroot_is_current_root [OF a] a b c d e f by simp
qed

text \<open>
  C6 (the code departs from it). On the open channel at block 10 with a reveal timeout
  of 3, \<open>create_lockedtransfer\<close> returns a message for a lock that expires at block 13;
  registering that message, signed by us, on the same channel raises the \<open>ValueError\<close>
  of the reveal-timeout check and leaves our nonce where it was.
\<close>

theorem constructed_locked_transfer_rejected_at_reveal_timeout:
  "isopen demo_channel
   \<and> expiration lock_at_reveal - block_number (external_state demo_channel) = reveal_timeout demo_channel
   \<and> create_lockedtransfer demo_prims demo_channel 10 13 ''#s1'' = (Inr locked_at_reveal, demo_channel)
   \<and> register_transfer demo_prims demo_channel (sign ''A'' locked_at_reveal)
       = (Inl (ValueError ''Expiration smaller than the minimum requried.''), demo_channel)"
  by (simp add: demo_channel_simps lock_at_reveal_def locked_at_reveal_def)

text \<open>
  C8, as stated, fails: an asset mismatch and an unknown recipient are both raised as a
  \<open>ValueError\<close>, the same class, and so is the unknown secret of
  \<open>Channel.claim_locked\<close>.
\<close>

theorem taxonomy_kinds_counterexample:
  "fst (register_transfer_from_to demo_prims demo_channel
          (DirectTransfer ((inbound_header 1 ''r'')\<lparr>m_asset := ''X''\<rparr>) None)
          (partner_state demo_channel) (our_state demo_channel))
     = Inl (ValueError ''Asset address mismatch'')
   \<and> fst (register_transfer_from_to demo_prims demo_channel
          (DirectTransfer ((inbound_header 1 ''r'')\<lparr>m_recipient := ''C''\<rparr>) None)
          (partner_state demo_channel) (our_state demo_channel))
     = Inl (ValueError ''Unknow recipient'')
   \<and> exc_class (ValueError ''Asset address mismatch'') = exc_class (ValueError ''Unknow recipient'')
   \<and> fst (channel_claim_locked demo_prims demo_channel ''zz'' None)
     = Inl (ValueError ''The secret doesnt unlock any hashlock'')
   \<and> exc_class (ValueError ''The secret doesnt unlock any hashlock'') = ''ValueError''"
  by (simp add: demo_channel_simps)

text \<open>
  C8, amended. \<open>register_transfer_from_to\<close> raises a \<open>ValueError\<close> for an asset
  mismatch, an unknown recipient and an unsigned transfer, in this order of precedence
  and told apart by the message only; both constructors raise a \<open>ValueError\<close> for a
  closed channel and for insufficient funds; and \<open>Channel.claim_locked\<close> raises a
  \<open>ValueError\<close>, leaving the channel as it was, for a secret that unlocks no hashlock
  of either side.
\<close>

theorem taxonomy_errors_are_value_errors:
  "(m_asset (hdr t1) \<noteq> asset_address c
      \<longrightarrow> fst (register_transfer_from_to P c t1 f to) = Inl (ValueError ''Asset address mismatch''))
   \<and> (m_asset (hdr t2) = asset_address c \<and> m_recipient (hdr t2) \<noteq> address to
      \<longrightarrow> fst (register_transfer_from_to P c t2 f to) = Inl (ValueError ''Unknow recipient''))
   \<and> (m_asset (hdr t3) = asset_address c \<and> m_recipient (hdr t3) = address to
        \<and> m_sender (hdr t3) \<noteq> address f
      \<longrightarrow> fst (register_transfer_from_to P c t3 f to) = Inl (ValueError ''Unsigned transfer''))
   \<and> (\<not> isopen c5
      \<longrightarrow> fst (create_directtransfer P c5 amt secret) = Inl (ValueError ''The channel is closed'')
          \<and> fst (create_lockedtransfer P c5 amt expir hl) = Inl (ValueError ''The channel is closed''))
   \<and> (isopen c \<and> (amt6 \<le> 0 \<or> amt6 > distributable (our_state c) (partner_state c))
      \<longrightarrow> fst (create_directtransfer P c amt6 secret) = Inl (ValueError ''Insufficient funds''))
   \<and> (isopen c
        \<and> expir7 - block_number (external_state c) < settle_timeout c
        \<and> \<not> expir7 - reveal_timeout c < block_number (external_state c)
        \<and> (amt6 \<le> 0 \<or> amt6 > distributable (our_state c) (partner_state c))
      \<longrightarrow> fst (create_lockedtransfer P c amt6 expir7 hl) = Inl (ValueError ''Insufficient funds''))
   \<and> (\<not> contains (locked (our_state c)) (sha3 P s7) \<and> \<not> contains (locked (partner_state c)) (sha3 P s7)
      \<longrightarrow> channel_claim_locked P c s7 lr
            = (Inl (ValueError ''The secret doesnt unlock any hashlock''), c))"
  by (simp add: register_transfer_from_to_def create_directtransfer_def create_lockedtransfer_def
        channel_claim_locked_def Let_def)

theorem taxonomy_errors_are_value_errors_witness:
  "m_asset (hdr (DirectTransfer ((inbound_header 1 ''r'')\<lparr>m_asset := ''X''\<rparr>) None)) \<noteq> asset_address demo_channel
   \<and> fst (register_transfer_from_to demo_prims demo_channel
            (DirectTransfer ((inbound_header 1 ''r'')\<lparr>m_asset := ''X''\<rparr>) None)
            (partner_state demo_channel) (our_state demo_channel))
       = Inl (ValueError ''Asset address mismatch'')
   \<and> m_recipient (hdr (DirectTransfer ((inbound_header 1 ''r'')\<lparr>m_recipient := ''C''\<rparr>) None))
       \<noteq> address (our_state demo_channel)
   \<and> fst (register_transfer_from_to demo_prims demo_channel
            (DirectTransfer ((inbound_header 1 ''r'')\<lparr>m_recipient := ''C''\<rparr>) None)
            (partner_state demo_channel) (our_state demo_channel))
       = Inl (ValueError ''Unknow recipient'')
   \<and> m_sender (hdr (DirectTransfer ((inbound_header 1 ''r'')\<lparr>m_sender := []\<rparr>) None))
       \<noteq> address (partner_state demo_channel)
   \<and> fst (register_transfer_from_to demo_prims demo_channel
            (DirectTransfer ((inbound_header 1 ''r'')\<lparr>m_sender := []\<rparr>) None)
            (partner_state demo_channel) (our_state demo_channel))
       = Inl (ValueError ''Unsigned transfer'')
   \<and> \<not> isopen demo_channel_closed
   \<and> fst (create_directtransfer demo_prims demo_channel_closed 5 None)
       = Inl (ValueError ''The channel is closed'')
   \<and> fst (create_lockedtransfer demo_prims demo_channel_closed 5 15 ''#s1'')
       = Inl (ValueError ''The channel is closed'')
   \<and> isopen demo_channel
   \<and> 500 > distributable (our_state demo_channel) (partner_state demo_channel)
   \<and> fst (create_directtransfer demo_prims demo_channel 500 None)
       = Inl (ValueError ''Insufficient funds'')
   \<and> 15 - block_number (external_state demo_channel) < settle_timeout demo_channel
   \<and> \<not> 15 - reveal_timeout demo_channel < block_number (external_state demo_channel)
   \<and> fst (create_lockedtransfer demo_prims demo_channel 500 15 ''#s1'')
       = Inl (ValueError ''Insufficient funds'')
   \<and> \<not> contains (locked (our_state demo_channel)) (sha3 demo_prims ''zz'')
   \<and> \<not> contains (locked (partner_state demo_channel)) (sha3 demo_prims ''zz'')
   \<and> channel_claim_locked demo_prims demo_channel ''zz'' None
       = (Inl (ValueError ''The secret doesnt unlock any hashlock''), demo_channel)"
proof -
  have h1: "m_asset (hdr (DirectTransfer ((inbound_header 1 ''r'')\<lparr>m_asset := ''X''\<rparr>) None)) \<noteq> asset_address demo_channel"
    by (simp add: demo_channel_simps)
  have h2: "m_asset (hdr (DirectTransfer ((inbound_header 1 ''r'')\<lparr>m_recipient := ''C''\<rparr>) None)) = asset_address demo_channel
            \<and> m_recipient (hdr (DirectTransfer ((inbound_header 1 ''r'')\<lparr>m_recipient := ''C''\<rparr>) None))
                \<noteq> address (our_state demo_channel)"
    by (simp add: demo_channel_simps)
  have h3: "m_asset (hdr (DirectTransfer ((inbound_header 1 ''r'')\<lparr>m_sender := []\<rparr>) None)) = asset_address demo_channel
            \<and> m_recipient (hdr (DirectTransfer ((inbound_header 1 ''r'')\<lparr>m_sender := []\<rparr>) None)) = address (our_state demo_channel)
            \<and> m_sender (hdr (DirectTransfer ((inbound_header 1 ''r'')\<lparr>m_sender := []\<rparr>) None))
                \<noteq> address (partner_state demo_channel)"
    by (simp add: demo_channel_simps)
  have h5: "\<not> isopen demo_channel_closed"
    by (simp add: demo_channel_simps demo_channel_closed_def)
  have h6: "isopen demo_channel \<and> 500 > distributable (our_state demo_channel) (partner_state demo_channel)"
    by (simp add: demo_channel_simps)
  have h7: "15 - block_number (external_state demo_channel) < settle_timeout demo_channel
            \<and> \<not> 15 - reveal_timeout demo_channel < block_number (external_state demo_channel)"
    by (simp add: demo_channel_simps)
  have h8: "\<not> contains (locked (our_state demo_channel)) (sha3 demo_prims ''zz'')
            \<and> \<not> contains (locked (partner_state demo_channel)) (sha3 demo_prims ''zz'')"
    by (simp add: demo_channel_simps)
  show ?thesis
    using taxonomy_errors_are_value_errors
      [of "DirectTransfer ((inbound_header 1 ''r'')\<lparr>m_asset := ''X''\<rparr>) None" demo_channel
          demo_prims "partner_state demo_channel" "our_state demo_channel"
          "DirectTransfer ((inbound_header 1 ''r'')\<lparr>m_recipient := ''C''\<rparr>) None"
          "DirectTransfer ((inbound_header 1 ''r'')\<lparr>m_sender := []\<rparr>) None"
          demo_channel_closed 5 None 15 "''#s1''" 500 15 "''zz''" None]
      h1 h2 h3 h5 h6 h7 h8
    by simp
qed

subsection \<open>Nonces\<close>












subsection \<open>Rejected transfers\<close>

lemma pending_lock_hash_in_sequence:
  assumes "lockset_inv P S" "map_of (locked_map S) k = Some t"
  shows "lock_hash P (snd t) \<in> set (cached_lock_hashes S)"
proof -
  have "(k, t) \<in> set (locked_map S)" using assms(2) by (rule map_of_SomeD)
  then have "lock_hash P (snd t) \<in> set (map (\<lambda>kt. lock_hash P (snd (snd kt))) (locked_map S))"
    by force
  then show ?thesis using assms(1) unfolding lockset_inv_def by (metis set_mset_mset)
qed

lemma mset_remove1_append: "x \<in> set xs \<Longrightarrow> mset (remove1 x xs @ [x]) = mset xs"
  by simp

lemma claim_locked_error_frame:
  assumes "lockset_inv P (locked self)"
    and "claim_locked P self partner secret lr = (Inl err, self', partner')"
  shows "partner' = partner \<and> same_endpoint self self'"
proof (cases "map_of (locked_map (locked self)) (sha3 P secret)")
  case None
  then show ?thesis using assms(2) by (simp add: claim_locked_def same_endpoint_def)
next
  case (Some t)
  have inseq: "lock_hash P (snd t) \<in> set (cached_lock_hashes (locked self))"
    using pending_lock_hash_in_sequence [OF assms(1) Some] .
  show ?thesis
  proof (cases "lr = None \<or> lr = Some []")
    case True
    then show ?thesis
      using assms(2) Some inseq by (auto simp: claim_locked_def remove_def)
  next
    case False
    then show ?thesis
      using assms(2) Some inseq
      by (auto simp: claim_locked_def remove_def root_with_exclude_present same_endpoint_def
               split: if_splits)
  qed
qed

lemma root_with_include_frame:
  "lock_hash P l \<noteq> [] \<Longrightarrow> locked_map (snd (root_with P S (Some l) None)) = locked_map S
   \<and> mset (cached_lock_hashes (snd (root_with P S (Some l) None))) = mset (cached_lock_hashes S)"
  by (simp add: root_with_include_only)

lemma root_frame:
  "locked_map (snd (root P S)) = locked_map S
   \<and> cached_lock_hashes (snd (root P S)) = cached_lock_hashes S"
  by (simp add: root_def split: option.splits)

text \<open>
  What a rejected transfer leaves behind, for a recipient whose lock container is in its
  invariant and a digest that is never empty: the sender and the external state
  untouched, and the recipient equal to what it was up to the order of its hash sequence
  and the memo of the root.
\<close>

lemma register_transfer_from_to_error_frame:
  assumes "lockset_inv P (locked to_state)" "\<forall>x. sha3 P x \<noteq> []"
    and "register_transfer_from_to P self transfer from_state to_state = (Inl err, f', t', e')"
  shows "f' = from_state \<and> e' = external_state self \<and> same_endpoint to_state t'"
proof (cases transfer)
  case (DirectTransfer h secret)
  show ?thesis
    using assms(3) claim_locked_error_frame [OF assms(1)]
    unfolding register_transfer_from_to_def Let_def DirectTransfer
    by (auto simp: register_tail_def same_endpoint_def
             split: if_splits option.splits prod.splits sum.splits)
next
  case (LockedTransfer h l)
  show ?thesis
    using assms(3) root_with_include_frame [of P l "locked to_state"] assms(2)
    unfolding register_transfer_from_to_def Let_def LockedTransfer
    by (auto simp: register_tail_def same_endpoint_def add_def root_frame lock_hash_def
             split: if_splits prod.splits sum.splits)
qed

subsection \<open>The invariant of the lock containers\<close>

lemma lockset_inv_init: "lockset_inv P LockedTransfers_init"
  by (simp add: lockset_inv_def LockedTransfers_init_def)

lemma update_fresh_key: "map_of al k = None \<Longrightarrow> AList.update k v al = al @ [(k, v)]"
  by (induction al) (auto split: if_splits)

lemma lockset_inv_add: "lockset_inv P S \<Longrightarrow> lockset_inv P (snd (add P S t))"
proof (cases "contains S (hashlock (snd t))")
  case True
  assume "lockset_inv P S"
  then show ?thesis using True by (simp add: add_def)
next
  case False
  assume inv: "lockset_inv P S"
  have none: "map_of (locked_map S) (hashlock (snd t)) = None"
    using False unfolding contains_def by blast
  then have fresh: "hashlock (snd t) \<notin> fst ` set (locked_map S)"
    by (simp add: map_of_eq_None_iff)
  show ?thesis
    using inv False fresh
    by (auto simp: add_def lockset_inv_def update_fresh_key [OF none])
qed

lemma mset_map_delete:
  assumes "distinct (map fst al)" "map_of al k = Some t"
  shows "mset (map f (AList.delete k al)) = mset (map f al) - {#f (k, t)#}"
  using assms
proof (induction al)
  case Nil
  then show ?case by simp
next
  case (Cons a al)
  show ?case
  proof (cases "fst a = k")
    case True
    then have "a = (k, t)" using Cons.prems(2) by (cases a) auto
    moreover have "k \<notin> fst ` set al" using Cons.prems(1) True by auto
    then have "AList.delete k al = al" by (rule delete_id)
    ultimately show ?thesis by simp
  next
    case False
    then have "map_of al k = Some t" using Cons.prems(2) by (cases a) auto
    then have in_al: "(k, t) \<in> set al" by (rule map_of_SomeD)
    have "mset (map f (AList.delete k al)) = mset (map f al) - {#f (k, t)#}"
      using Cons.IH Cons.prems(1) \<open>map_of al k = Some t\<close> by simp
    moreover have "f (k, t) \<in># mset (map f al)" using in_al by force
    ultimately show ?thesis using False by (cases a) (auto simp: AList.delete_eq)
  qed
qed

lemma lockset_inv_remove: "lockset_inv P S \<Longrightarrow> lockset_inv P (snd (remove P S h))"
proof (cases "map_of (locked_map S) h")
  case None
  assume "lockset_inv P S"
  then show ?thesis using None by (simp add: remove_def)
next
  case (Some t)
  assume inv: "lockset_inv P S"
  have d: "distinct (map fst (locked_map S))" using inv by (simp add: lockset_inv_def)
  have m: "mset (map (\<lambda>kt. lock_hash P (snd (snd kt))) (AList.delete h (locked_map S)))
           = mset (map (\<lambda>kt. lock_hash P (snd (snd kt))) (locked_map S)) - {#lock_hash P (snd t)#}"
    using mset_map_delete [OF d Some, of "\<lambda>kt. lock_hash P (snd (snd kt))"] by simp
  have sub: "set (AList.delete h (locked_map S)) \<subseteq> set (locked_map S)"
    by (auto simp: AList.delete_eq)
  show ?thesis
    using inv Some m sub
    by (auto simp: remove_def lockset_inv_def distinct_delete)
qed

lemma lockset_inv_root: "lockset_inv P S \<Longrightarrow> lockset_inv P (snd (root P S))"
  by (simp add: root_def lockset_inv_def split: option.splits)

lemma lockset_inv_root_with_include:
  "lockset_inv P S \<Longrightarrow> lock_hash P l \<noteq> [] \<Longrightarrow> lockset_inv P (snd (root_with P S (Some l) None))"
  by (simp add: root_with_include_only lockset_inv_def)

lemma lockset_inv_root_with_exclude:
  "lockset_inv P S \<Longrightarrow> lock_hash P e \<in> set (cached_lock_hashes S)
     \<Longrightarrow> lockset_inv P (snd (root_with P S None (Some e)))"
proof -
  assume inv: "lockset_inv P S" and mem: "lock_hash P e \<in> set (cached_lock_hashes S)"
  have "mset (remove1 (lock_hash P e) (cached_lock_hashes S) @ [lock_hash P e])
          = mset (cached_lock_hashes S)"
    using mem by simp
  then show ?thesis
    using inv unfolding root_with_exclude_present [OF mem] lockset_inv_def by simp
qed


lemma claim_locked_inv:
  assumes "lockset_inv P (locked self)"
    and "claim_locked P self partner secret lr = (res, self', partner')"
  shows "lockset_inv P (locked self') \<and> locked partner' = locked partner"
proof (cases "map_of (locked_map (locked self)) (sha3 P secret)")
  case None
  then show ?thesis using assms by (simp add: claim_locked_def)
next
  case (Some t)
  have inseq: "lock_hash P (snd t) \<in> set (cached_lock_hashes (locked self))"
    using pending_lock_hash_in_sequence [OF assms(1) Some] .
  have excl: "lockset_inv P (snd (root_with P (locked self) None (Some (snd t))))"
    using lockset_inv_root_with_exclude [OF assms(1) inseq] .
  show ?thesis
    using assms(2) Some excl assms(1)
      lockset_inv_remove [of P "locked self" "sha3 P secret"]
      lockset_inv_remove [of P "snd (root_with P (locked self) None (Some (snd t)))" "sha3 P secret"]
    by (auto simp: claim_locked_def split: if_splits prod.splits sum.splits)
qed

lemma register_transfer_from_to_inv:
  assumes "lockset_inv P (locked to_state)" "\<forall>x. sha3 P x \<noteq> []"
    and "register_transfer_from_to P self transfer from_state to_state = (res, f', t', e')"
  shows "lockset_inv P (locked t') \<and> locked f' = locked from_state"
proof (cases transfer)
  case (DirectTransfer h secret)
  show ?thesis
    using assms(3) assms(1) claim_locked_inv [OF assms(1)] lockset_inv_root [OF assms(1)]
      lockset_inv_root [of P "locked t'"]
    unfolding register_transfer_from_to_def Let_def DirectTransfer
    by (auto simp: register_tail_def split: if_splits option.splits prod.splits sum.splits
             dest!: claim_locked_inv [OF assms(1)] intro: lockset_inv_root)
next
  case (LockedTransfer h l)
  have nonempty: "lock_hash P l \<noteq> []" using assms(2) by (simp add: lock_hash_def)
  have incl: "lockset_inv P (snd (root_with P (locked to_state) (Some l) None))"
    using lockset_inv_root_with_include [OF assms(1) nonempty] .
  show ?thesis
    using assms(3) assms(1) incl lockset_inv_root [OF incl]
      lockset_inv_add [OF incl, of "(h, l)"]
      lockset_inv_root [OF lockset_inv_add [OF incl, of "(h, l)"]]
    unfolding register_transfer_from_to_def Let_def LockedTransfer
    by (auto simp: register_tail_def split: if_splits prod.splits sum.splits)
qed


lemma register_transfer_inv:
  assumes "channel_inv P c" "\<forall>x. sha3 P x \<noteq> []"
  shows "channel_inv P (snd (register_transfer P c t))"
proof -
  obtain r1 f1 t1 e1 where out:
    "register_transfer_from_to P c t (our_state c) (partner_state c) = (r1, f1, t1, e1)"
    by (metis prod_cases4)
  obtain r2 f2 t2 e2 where inb:
    "register_transfer_from_to P c t (partner_state c) (our_state c) = (r2, f2, t2, e2)"
    by (metis prod_cases4)
  have a: "lockset_inv P (locked t1) \<and> locked f1 = locked (our_state c)"
    using register_transfer_from_to_inv [OF _ assms(2) out] assms(1) by (simp add: channel_inv_def)
  have b: "lockset_inv P (locked t2) \<and> locked f2 = locked (partner_state c)"
    using register_transfer_from_to_inv [OF _ assms(2) inb] assms(1) by (simp add: channel_inv_def)
  show ?thesis
    using assms(1) a b out inb
    by (auto simp: register_transfer_def channel_inv_def split: sum.splits)
qed

lemma channel_claim_locked_inv:
  assumes "channel_inv P c"
  shows "channel_inv P (snd (channel_claim_locked P c s lr))"
proof -
  obtain r1 a1 b1 where x: "claim_locked P (our_state c) (partner_state c) s lr = (r1, a1, b1)"
    by (metis prod_cases3)
  obtain r2 a2 b2 where y: "claim_locked P (partner_state c) (our_state c) s lr = (r2, a2, b2)"
    by (metis prod_cases3)
  have a: "lockset_inv P (locked a1) \<and> locked b1 = locked (partner_state c)"
    using claim_locked_inv [OF _ x] assms by (simp add: channel_inv_def)
  have b: "lockset_inv P (locked a2) \<and> locked b2 = locked (our_state c)"
    using claim_locked_inv [OF _ y] assms by (simp add: channel_inv_def)
  show ?thesis
    using assms a b x y by (auto simp: channel_claim_locked_def channel_inv_def)
qed

lemma create_directtransfer_inv:
  assumes "channel_inv P c"
  shows "channel_inv P (snd (create_directtransfer P c a s))"
  using assms lockset_inv_root [of P "locked (partner_state c)"]
  by (auto simp: create_directtransfer_def channel_inv_def split: prod.splits)

lemma create_lockedtransfer_inv:
  assumes "channel_inv P c" "\<forall>x. sha3 P x \<noteq> []"
  shows "channel_inv P (snd (create_lockedtransfer P c a e h))"
proof -
  have "lock_hash P \<lparr>amount = a, expiration = e, hashlock = h\<rparr> \<noteq> []"
    using assms(2) by (simp add: lock_hash_def)
  then show ?thesis
    using assms(1)
      lockset_inv_root_with_include [of P "locked (partner_state c)" "\<lparr>amount = a, expiration = e, hashlock = h\<rparr>"]
    by (auto simp: create_lockedtransfer_def channel_inv_def split: prod.splits sum.splits)
qed

lemma exec_op_inv:
  assumes "channel_inv P c" "\<forall>x. sha3 P x \<noteq> []"
  shows "channel_inv P (snd (exec_op P c operation))"
proof (cases operation)
  case (Register t)
  then show ?thesis using register_transfer_inv [OF assms] by simp
next
  case (ClaimLocked s lr)
  then show ?thesis using channel_claim_locked_inv [OF assms(1)] by simp
next
  case (CreateDirect a s)
  then show ?thesis
    using create_directtransfer_inv [OF assms(1), of a s]
    by (auto split: prod.splits sum.splits)
next
  case (CreateLocked a e h)
  then show ?thesis
    using create_lockedtransfer_inv [OF assms, of a e h]
    by (auto split: prod.splits sum.splits)
next
  case (UpdateOurBalance b)
  then show ?thesis using assms(1) by (simp add: channel_inv_def update_contract_balance_def)
next
  case (UpdatePartnerBalance b)
  then show ?thesis using assms(1) by (simp add: channel_inv_def update_contract_balance_def)
next
  case (ChainUpdate b x y z)
  then show ?thesis using assms(1) by (simp add: channel_inv_def)
qed

text \<open>
  With a digest that is never empty, the lock containers of every reachable channel are
  in their invariant.
\<close>

lemma reachable_channel_inv:
  assumes "reachable P c" "\<forall>x. sha3 P x \<noteq> []"
  shows "channel_inv P c"
  using assms
proof (induction rule: reachable.induct)
  case (fresh a1 b1 a2 b2 ext asset_addr reveal settle)
  then show ?case
    by (simp add: channel_inv_def Channel_init_def ChannelEndState_init_def lockset_inv_init)
next
  case (step c operation)
  then show ?case using exec_op_inv by blast
qed

subsection \<open>Concrete runs\<close>

lemma foldl_reachable:
  "reachable P c \<Longrightarrow> reachable P (foldl (\<lambda>c operation. snd (exec_op P c operation)) c ops)"
  by (induction ops arbitrary: c) (auto intro: reachable.step)

lemma demo_channel_reachable: "reachable demo_prims demo_channel"
  unfolding demo_channel_def by (rule reachable.fresh)

lemma demo_channel_two_locks_reachable: "reachable demo_prims demo_channel_two_locks"
  unfolding demo_channel_two_locks_def by (rule foldl_reachable [OF demo_channel_reachable])


lemma demo_channel_two_locks_our:
  "our_state demo_channel_two_locks =
     \<lparr>contract_balance = 100, transfered_amount = 0, address = ''A'', nonce = 1,
      locked = \<lparr>locked_map =
                  [(''#s1'', inbound_header 1 (merkleroot demo_prims [lock_hash demo_prims lock1]), lock1),
                   (''#t2'', inbound_header 2 (merkleroot demo_prims [lock_hash demo_prims lock1, lock_hash demo_prims lock2]), lock2)],
                cached_lock_hashes = [lock_hash demo_prims lock1, lock_hash demo_prims lock2],
                cached_root = None\<rparr>\<rparr>"
  by (simp add: demo_channel_two_locks_def inbound_locked_def demo_channel_simps)

lemma demo_channel_two_locks_partner:
  "partner_state demo_channel_two_locks =
     \<lparr>contract_balance = 100, transfered_amount = 5, address = ''B'', nonce = 4,
      locked = LockedTransfers_init\<rparr>"
  by (simp add: demo_channel_two_locks_def inbound_locked_def demo_channel_simps)

lemma demo_channel_two_locks_config:
  "asset_address demo_channel_two_locks = ''T'' \<and> reveal_timeout demo_channel_two_locks = 3
   \<and> settle_timeout demo_channel_two_locks = 20
   \<and> block_number (external_state demo_channel_two_locks) = 10"
  by (simp add: demo_channel_two_locks_def inbound_locked_def demo_channel_simps)

text \<open>
  C1 (the code departs from it). In a reachable channel where \<open>A\<close> holds \<open>lock1\<close>
  and \<open>lock2\<close>, \<open>B\<close> sends a \<open>DirectTransfer\<close> with the secret of \<open>lock1\<close> and a
  wrong locksroot. \<open>register_transfer_from_to\<close> raises \<open>InvalidLocksRoot\<close>, and the
  hash sequence of \<open>A\<close>'s lock container, which was the digest of \<open>lock1\<close> followed by
  that of \<open>lock2\<close>, is left in the opposite order; the root that the container reports
  afterwards is the root over the reordered sequence.
\<close>

theorem rejected_claim_reorders_hash_sequence:
  "reachable demo_prims demo_channel_two_locks
   \<and> cached_lock_hashes (locked (our_state demo_channel_two_locks))
       = [lock_hash demo_prims lock1, lock_hash demo_prims lock2]
   \<and> root_value demo_prims (locked (our_state demo_channel_two_locks))
       = merkleroot demo_prims [lock_hash demo_prims lock1, lock_hash demo_prims lock2]
   \<and> fst (register_transfer_from_to demo_prims demo_channel_two_locks bad_claim
             (partner_state demo_channel_two_locks) (our_state demo_channel_two_locks))
       = Inl InvalidLocksRoot
   \<and> cached_lock_hashes (locked (fst (snd (snd
         (register_transfer_from_to demo_prims demo_channel_two_locks bad_claim
             (partner_state demo_channel_two_locks) (our_state demo_channel_two_locks))))))
       = [lock_hash demo_prims lock2, lock_hash demo_prims lock1]
   \<and> root_value demo_prims (locked (fst (snd (snd
         (register_transfer_from_to demo_prims demo_channel_two_locks bad_claim
             (partner_state demo_channel_two_locks) (our_state demo_channel_two_locks))))))
       = merkleroot demo_prims [lock_hash demo_prims lock2, lock_hash demo_prims lock1]
   \<and> merkleroot demo_prims [lock_hash demo_prims lock2, lock_hash demo_prims lock1]
       \<noteq> merkleroot demo_prims [lock_hash demo_prims lock1, lock_hash demo_prims lock2]"
proof -
  have r: "register_transfer_from_to demo_prims demo_channel_two_locks bad_claim
             (partner_state demo_channel_two_locks) (our_state demo_channel_two_locks)
           = (Inl InvalidLocksRoot, partner_state demo_channel_two_locks,
              (our_state demo_channel_two_locks)
                \<lparr>locked := (locked (our_state demo_channel_two_locks))
                   \<lparr>cached_lock_hashes := [lock_hash demo_prims lock2, lock_hash demo_prims lock1]\<rparr>\<rparr>,
              external_state demo_channel_two_locks)"
    unfolding register_transfer_from_to_def Let_def
    by (simp add: demo_channel_two_locks_our demo_channel_two_locks_partner
          demo_channel_two_locks_config bad_claim_def demo_lockset_simps inbound_header_def
          claim_locked_def distributable_def balance_def outstanding_def)
  have neq: "merkleroot demo_prims [lock_hash demo_prims lock2, lock_hash demo_prims lock1]
       \<noteq> merkleroot demo_prims [lock_hash demo_prims lock1, lock_hash demo_prims lock2]"
    by (simp add: demo_lockset_simps)
  show ?thesis
    unfolding r
    using demo_channel_two_locks_reachable neq
    by (simp add: demo_channel_two_locks_our root_value_def root_def)
qed



end
